theory Spec2Isabelle
  imports Main
begin

section \<open>Python values\<close>

text \<open>
  The crawler handles decoded JSON documents and dictionaries it builds from them.
  A decoded value is \<open>None\<close>, a boolean, an integer, a string, a list or a dictionary with
  string keys. A dictionary is an association list in insertion order; its keys are
  meant to be distinct, and a lookup takes the first entry of a key. JSON numbers with a
  fraction or an exponent (Python floats) are not covered.
\<close>

datatype pyval =
    PNone
  | PBool bool
  | PInt int
  | PStr string
  | PList "pyval list"
  | PDict "(string \<times> pyval) list"

type_synonym pydict = "(string \<times> pyval) list"

text \<open>The exceptions the crawler can meet; each one is a value of the model.\<close>

datatype exn = AttributeError | TypeError | KeyError | JSONDecodeError

text \<open>Truth value of an object, as \<open>if x:\<close> and \<open>not x\<close> test it.\<close>

fun truthy :: "pyval \<Rightarrow> bool" where
  "truthy PNone = False"
| "truthy (PBool b) = b"
| "truthy (PInt i) = (i \<noteq> 0)"
| "truthy (PStr s) = (s \<noteq> [])"
| "truthy (PList xs) = (xs \<noteq> [])"
| "truthy (PDict kvs) = (kvs \<noteq> [])"

text \<open>
  The operator \<open>==\<close>. A boolean equals the integer 0 or 1 it stands for, lists are
  compared position by position, dictionaries entry by entry whatever their order.
\<close>

fun py_eq :: "pyval \<Rightarrow> pyval \<Rightarrow> bool"
  and py_eq_list :: "pyval list \<Rightarrow> pyval list \<Rightarrow> bool"
  and py_eq_entries :: "(string \<times> pyval) list \<Rightarrow> (string \<times> pyval) list \<Rightarrow> bool"
where
  "py_eq PNone y = (y = PNone)"
| "py_eq (PBool a) y =
     (case y of PBool b \<Rightarrow> a = b | PInt j \<Rightarrow> (if a then 1 else 0) = j | _ \<Rightarrow> False)"
| "py_eq (PInt i) y =
     (case y of PBool b \<Rightarrow> i = (if b then 1 else 0) | PInt j \<Rightarrow> i = j | _ \<Rightarrow> False)"
| "py_eq (PStr s) y = (y = PStr s)"
| "py_eq (PList xs) y = (case y of PList ys \<Rightarrow> py_eq_list xs ys | _ \<Rightarrow> False)"
| "py_eq (PDict xs) y =
     (case y of PDict ys \<Rightarrow> length xs = length ys \<and> py_eq_entries xs ys | _ \<Rightarrow> False)"
| "py_eq_list [] ys = (ys = [])"
| "py_eq_list (x # xs) ys =
     (case ys of [] \<Rightarrow> False | z # zs \<Rightarrow> py_eq x z \<and> py_eq_list xs zs)"
| "py_eq_entries [] ys = True"
| "py_eq_entries (kv # xs) ys =
     (case map_of ys (fst kv) of
        None \<Rightarrow> False
      | Some w \<Rightarrow> py_eq (snd kv) w \<and> py_eq_entries xs ys)"

text \<open>\<open>d.get(key, default)\<close> and \<open>d[key]\<close> on a dictionary.\<close>

definition dict_get :: "pydict \<Rightarrow> string \<Rightarrow> pyval \<Rightarrow> pyval" where
  "dict_get d k dflt = (case map_of d k of None \<Rightarrow> dflt | Some v \<Rightarrow> v)"

definition dict_index :: "pydict \<Rightarrow> string \<Rightarrow> exn + pyval" where
  "dict_index d k = (case map_of d k of None \<Rightarrow> Inl KeyError | Some v \<Rightarrow> Inr v)"

text \<open>\<open>d[key] = v\<close>: an existing key keeps its place, a new key goes to the end.\<close>

fun dict_set :: "string \<Rightarrow> pyval \<Rightarrow> pydict \<Rightarrow> pydict" where
  "dict_set k v [] = [(k, v)]"
| "dict_set k v (kv # d) = (if fst kv = k then (k, v) # d else kv # dict_set k v d)"

text \<open>\<open>d.update(other)\<close>: the entries of \<open>other\<close> are stored one after the other.\<close>

fun dict_update :: "pydict \<Rightarrow> pydict \<Rightarrow> pydict" where
  "dict_update d [] = d"
| "dict_update d (kv # other) = dict_update (dict_set (fst kv) (snd kv) d) other"

text \<open>
  \<open>x.get(key, default)\<close> on any object: only a dictionary has the method, every other
  object raises \<open>AttributeError\<close>.
\<close>

fun py_get :: "pyval \<Rightarrow> string \<Rightarrow> pyval \<Rightarrow> exn + pyval" where
  "py_get (PDict d) k dflt = Inr (dict_get d k dflt)"
| "py_get _ k dflt = Inl AttributeError"

text \<open>
  What \<open>for x in obj\<close> walks through: the elements of a list, the one-character strings
  of a string, the keys of a dictionary. The other objects are not iterable.
\<close>

fun py_iter :: "pyval \<Rightarrow> exn + pyval list" where
  "py_iter (PList xs) = Inr xs"
| "py_iter (PStr s) = Inr (map (\<lambda>c. PStr [c]) s)"
| "py_iter (PDict d) = Inr (map (\<lambda>kv. PStr (fst kv)) d)"
| "py_iter _ = Inl TypeError"

text \<open>Whether \<open>s\<close> occurs in \<open>t\<close> as a contiguous piece: \<open>s in t\<close> on two strings.\<close>

fun starts_with :: "string \<Rightarrow> string \<Rightarrow> bool" where
  "starts_with [] t = True"
| "starts_with (c # s) [] = False"
| "starts_with (c # s) (d # t) = (c = d \<and> starts_with s t)"

fun occurs_in :: "string \<Rightarrow> string \<Rightarrow> bool" where
  "occurs_in s [] = (s = [])"
| "occurs_in s (d # t) = (starts_with s (d # t) \<or> occurs_in s t)"

text \<open>
  \<open>key in obj\<close> for a string \<open>key\<close>: a key of a dictionary, an element of a list, a piece
  of a string; \<open>TypeError\<close> on the other objects.
\<close>

fun py_contains :: "string \<Rightarrow> pyval \<Rightarrow> exn + bool" where
  "py_contains k (PDict d) = Inr (map_of d k \<noteq> None)"
| "py_contains k (PList xs) = Inr (list_ex (py_eq (PStr k)) xs)"
| "py_contains k (PStr t) = Inr (occurs_in k t)"
| "py_contains k _ = Inl TypeError"

text \<open>\<open>obj[key]\<close> for a string \<open>key\<close>: lists and strings take integer indices only.\<close>

fun py_index :: "pyval \<Rightarrow> string \<Rightarrow> exn + pyval" where
  "py_index (PDict d) k = dict_index d k"
| "py_index _ k = Inl TypeError"

text \<open>
  The slice \<open>xs[:n]\<close>: the first \<open>n\<close> elements, and for a negative \<open>n\<close> all but the last
  \<open>-n\<close>.
\<close>

definition py_take :: "int \<Rightarrow> 'a list \<Rightarrow> 'a list" where
  "py_take n xs = (if 0 \<le> n then take (nat n) xs else take (length xs - nat (- n)) xs)"

section \<open>The remote service and the world\<close>

text \<open>
  A response carries its status code and its body; the body is \<open>None\<close> when
  \<open>response.json()\<close> raises, and the decoded document otherwise.
\<close>

record response =
  status_code :: int
  body :: "pyval option"

text \<open>
  The two requests of the crawler: the listing request with the session id and the page
  token when there is one, and the detail request with the ids of a batch (sent joined by
  commas in one parameter).
\<close>

datatype request =
    GetSorts string "pyval option"
  | GetGames "pyval list"

text \<open>
  The world holds the seconds slept so far, the requests sent so far and the state of the
  remote service. The service answers a request from its state and the time, and moves
  to a new state. Console output is left out.
\<close>

record 's world =
  clock :: nat
  requests :: "request list"
  server :: 's

type_synonym 's service = "'s \<Rightarrow> nat \<Rightarrow> request \<Rightarrow> response \<times> 's"

definition http_get :: "'s service \<Rightarrow> request \<Rightarrow> 's world \<Rightarrow> response \<times> 's world" where
  "http_get api req w =
     (let (resp, s) = api (server w) (clock w) req
      in (resp, w\<lparr>requests := requests w @ [req], server := s\<rparr>))"

definition sleep :: "nat \<Rightarrow> 's world \<Rightarrow> 's world" where
  "sleep d w = w\<lparr>clock := clock w + d\<rparr>"

section \<open>Detail records\<close>

text \<open>What \<open>fetch_game_details\<close> hands back: a list of dictionaries, or \<open>None\<close>.\<close>

datatype details = NoneReturned | Details "pydict list"

text \<open>One entry of the list comprehension of \<open>fetch_game_details\<close>.\<close>

fun detail_of :: "pyval \<Rightarrow> exn + pydict" where
  "detail_of (PDict game) =
     (case py_get (dict_get game ''creator'' (PDict [])) ''name'' (PStr ''N/A'') of
        Inl e \<Rightarrow> Inl e
      | Inr developer \<Rightarrow> Inr
          [(''UniverseId'', dict_get game ''id'' PNone),
           (''Name'', dict_get game ''name'' (PStr ''N/A'')),
           (''Genre'', dict_get game ''genre'' (PStr ''N/A'')),
           (''Created Date'', dict_get game ''created'' (PStr ''N/A'')),
           (''Updated Date'', dict_get game ''updated'' (PStr ''N/A'')),
           (''Max Players'', dict_get game ''maxPlayers'' (PStr ''N/A'')),
           (''Playability Status'', dict_get game ''playabilityStatus'' (PStr ''N/A'')),
           (''Is Experimental'', dict_get game ''isExperimental'' (PBool False)),
           (''Price'', dict_get game ''price'' (PInt 0)),
           (''Visits'', dict_get game ''visits'' (PInt 0)),
           (''Developer'', developer),
           (''Thumbnail URL'', dict_get game ''thumbnailUrl'' (PStr ''N/A''))])"
| "detail_of _ = Inl AttributeError"

fun details_of :: "pyval list \<Rightarrow> exn + pydict list" where
  "details_of [] = Inr []"
| "details_of (game # games) =
     (case detail_of game of
        Inl e \<Rightarrow> Inl e
      | Inr d \<Rightarrow> (case details_of games of Inl e \<Rightarrow> Inl e | Inr ds \<Rightarrow> Inr (d # ds)))"

text \<open>
  The \<open>try\<close> block of \<open>fetch_game_details\<close>: \<open>Inl\<close> is an exception raised inside it,
  \<open>Inr\<close> what the block returns, which is nothing when \<open>"data" in data\<close> is false.
\<close>

definition details_try :: "response \<Rightarrow> exn + details" where
  "details_try resp =
     (case body resp of
        None \<Rightarrow> Inl JSONDecodeError
      | Some data \<Rightarrow>
          (case py_contains ''data'' data of
             Inl e \<Rightarrow> Inl e
           | Inr False \<Rightarrow> Inr NoneReturned
           | Inr True \<Rightarrow>
               (case py_index data ''data'' of
                  Inl e \<Rightarrow> Inl e
                | Inr games \<Rightarrow>
                    (case py_iter games of
                       Inl e \<Rightarrow> Inl e
                     | Inr gs \<Rightarrow>
                         (case details_of gs of
                            Inl e \<Rightarrow> Inl e
                          | Inr ds \<Rightarrow> Inr (Details ds))))))"

text \<open>
  What \<open>fetch_game_details\<close> returns for a response that is not a 429: the empty list on
  another status than 200 and on an exception in the \<open>try\<close> block.
\<close>

definition details_result :: "response \<Rightarrow> details" where
  "details_result resp =
     (if status_code resp \<noteq> 200 then Details []
      else case details_try resp of Inl e \<Rightarrow> Details [] | Inr r \<Rightarrow> r)"

text \<open>
  \<open>fetch_game_details\<close>: one request for the batch; on a 429 five seconds of sleep and the
  same call again. The result is \<open>None\<close> when the retries never end.
\<close>

partial_function (option) fetch_game_details ::
  "'s service \<Rightarrow> pyval list \<Rightarrow> 's world \<Rightarrow> (details \<times> 's world) option"
where
  "fetch_game_details api universe_ids w =
     (case http_get api (GetGames universe_ids) w of
        (resp, w1) \<Rightarrow>
          if status_code resp = 429 then fetch_game_details api universe_ids (sleep 5 w1)
          else Some (details_result resp, w1))"

section \<open>Listing records\<close>

text \<open>The dictionary \<open>game_data\<close> built for one item of a listing page.\<close>

fun game_data_of :: "pyval \<Rightarrow> exn + pydict" where
  "game_data_of (PDict game) = Inr
     [(''UniverseId'', dict_get game ''universeId'' PNone),
      (''Name'', dict_get game ''name'' (PStr ''N/A'')),
      (''PlayerCount'', dict_get game ''playerCount'' (PInt 0)),
      (''Upvotes'', dict_get game ''totalUpVotes'' (PInt 0)),
      (''Downvotes'', dict_get game ''totalDownVotes'' (PInt 0))]"
| "game_data_of _ = Inl AttributeError"

text \<open>
  The loop over the games of one sort. It appends to \<open>all_game_data\<close> as it goes, so the
  list is returned together with the exception that stopped the loop, if any.
\<close>

fun collect_games :: "pyval list \<Rightarrow> pydict list \<Rightarrow> exn option \<times> pydict list" where
  "collect_games [] all_game_data = (None, all_game_data)"
| "collect_games (game # games) all_game_data =
     (case game_data_of game of
        Inl e \<Rightarrow> (Some e, all_game_data)
      | Inr game_data \<Rightarrow>
          collect_games games
            (if truthy (dict_get game_data ''UniverseId'' PNone)
             then all_game_data @ [game_data] else all_game_data))"

text \<open>The loop over the sorts of a page.\<close>

fun collect_sorts :: "pyval list \<Rightarrow> pydict list \<Rightarrow> exn option \<times> pydict list" where
  "collect_sorts [] all_game_data = (None, all_game_data)"
| "collect_sorts (sort' # sorts) all_game_data =
     (case py_get sort' ''games'' (PList []) of
        Inl e \<Rightarrow> (Some e, all_game_data)
      | Inr games \<Rightarrow>
          (case py_iter games of
             Inl e \<Rightarrow> (Some e, all_game_data)
           | Inr gs \<Rightarrow>
               (case collect_games gs all_game_data of
                  (Some e, all') \<Rightarrow> (Some e, all')
                | (None, all') \<Rightarrow> collect_sorts sorts all')))"

text \<open>
  The \<open>try\<close> block of \<open>fetch_game_ids_from_api\<close> ends in one of three ways: an exception
  (caught, the loop is left), no token for a next page (the loop is left), or a token.
\<close>

datatype page_end = PageRaised exn | NoMorePages | NextPage pyval

definition page_try :: "response \<Rightarrow> pydict list \<Rightarrow> page_end \<times> pydict list" where
  "page_try resp all_game_data =
     (case body resp of
        None \<Rightarrow> (PageRaised JSONDecodeError, all_game_data)
      | Some data \<Rightarrow>
          (case py_get data ''sorts'' (PList []) of
             Inl e \<Rightarrow> (PageRaised e, all_game_data)
           | Inr sorts \<Rightarrow>
               (case py_iter sorts of
                  Inl e \<Rightarrow> (PageRaised e, all_game_data)
                | Inr ss \<Rightarrow>
                    (case collect_sorts ss all_game_data of
                       (Some e, all') \<Rightarrow> (PageRaised e, all')
                     | (None, all') \<Rightarrow>
                         (case py_get data ''nextSortsPageToken'' PNone of
                            Inl e \<Rightarrow> (PageRaised e, all')
                          | Inr token \<Rightarrow>
                              if \<not> truthy token then (NoMorePages, all')
                              else (NextPage token, all'))))))"

text \<open>
  The \<open>while\<close> loop of \<open>fetch_game_ids_from_api\<close>, from the list and the page token it
  has reached. The result is \<open>None\<close> when the loop never ends.
\<close>

partial_function (option) fetch_game_ids_loop ::
  "'s service \<Rightarrow> string \<Rightarrow> int \<Rightarrow> pydict list \<Rightarrow> pyval \<Rightarrow> 's world
     \<Rightarrow> (pydict list \<times> 's world) option"
where
  "fetch_game_ids_loop api session_id max_games all_game_data sorts_page_token w =
     (if int (length all_game_data) < max_games then
        (case http_get api
                (GetSorts session_id
                   (if truthy sorts_page_token then Some sorts_page_token else None)) w of
           (resp, w1) \<Rightarrow>
             if status_code resp \<noteq> 200 then Some (all_game_data, w1)
             else
               (case page_try resp all_game_data of
                  (NextPage token, all') \<Rightarrow>
                    fetch_game_ids_loop api session_id max_games all' token (sleep 1 w1)
                | (NoMorePages, all') \<Rightarrow> Some (all', w1)
                | (PageRaised e, all') \<Rightarrow> Some (all', w1)))
      else Some (all_game_data, w))"

definition fetch_game_ids_from_api ::
  "'s service \<Rightarrow> string \<Rightarrow> int \<Rightarrow> 's world \<Rightarrow> (pydict list \<times> 's world) option"
where
  "fetch_game_ids_from_api api session_id max_games w =
     (case fetch_game_ids_loop api session_id max_games [] PNone w of
        None \<Rightarrow> None
      | Some (all_game_data, w') \<Rightarrow> Some (py_take max_games all_game_data, w'))"

section \<open>Batches and the merge\<close>

text \<open>\<open>[game["UniverseId"] for game in game_data]\<close>.\<close>

fun universe_ids_of :: "pydict list \<Rightarrow> exn + pyval list" where
  "universe_ids_of [] = Inr []"
| "universe_ids_of (game # game_data) =
     (case dict_index game ''UniverseId'' of
        Inl e \<Rightarrow> Inl e
      | Inr u \<Rightarrow> (case universe_ids_of game_data of Inl e \<Rightarrow> Inl e | Inr us \<Rightarrow> Inr (u # us)))"

text \<open>
  The slices \<open>universe_ids[i:i + batch_size]\<close> for \<open>i\<close> in
  \<open>range(0, len(universe_ids), batch_size)\<close>, in the order of the loop.
\<close>

definition batches :: "nat \<Rightarrow> 'a list \<Rightarrow> 'a list list" where
  "batches batch_size xs =
     map (\<lambda>j. take batch_size (drop (j * batch_size) xs))
       [0 ..< (length xs + batch_size - 1) div batch_size]"

text \<open>
  The loop over \<open>game_data\<close> for one detail record: the first basic record with an equal
  id gives its three counters to the detail record, which is appended to \<open>games_data\<close>;
  without such a record nothing is appended.
\<close>

fun merge_detail :: "pydict list \<Rightarrow> pydict \<Rightarrow> pydict list \<Rightarrow> exn + pydict list" where
  "merge_detail [] detail games_data = Inr games_data"
| "merge_detail (basic # game_data) detail games_data =
     (case dict_index basic ''UniverseId'' of
        Inl e \<Rightarrow> Inl e
      | Inr b \<Rightarrow>
          (case dict_index detail ''UniverseId'' of
             Inl e \<Rightarrow> Inl e
           | Inr d \<Rightarrow>
               if py_eq b d then
                 Inr (games_data @
                   [dict_update detail
                      [(''PlayerCount'', dict_get basic ''PlayerCount'' (PInt 0)),
                       (''Upvotes'', dict_get basic ''Upvotes'' (PInt 0)),
                       (''Downvotes'', dict_get basic ''Downvotes'' (PInt 0))]])
               else merge_detail game_data detail games_data))"

text \<open>The loop over the detail records of one batch.\<close>

fun merge_batch :: "pydict list \<Rightarrow> pydict list \<Rightarrow> pydict list \<Rightarrow> exn + pydict list" where
  "merge_batch game_data [] games_data = Inr games_data"
| "merge_batch game_data (detail # batch_data) games_data =
     (case merge_detail game_data detail games_data of
        Inl e \<Rightarrow> Inl e
      | Inr games_data' \<Rightarrow> merge_batch game_data batch_data games_data')"

text \<open>
  The loop of \<open>scrape_games\<close> over the batches. Walking through the \<open>None\<close> that
  \<open>fetch_game_details\<close> may return raises \<open>TypeError\<close>. An exception leaves the function;
  the world stays as it was when the exception was raised.
\<close>

fun scrape_loop ::
  "'s service \<Rightarrow> pydict list \<Rightarrow> pyval list list \<Rightarrow> pydict list \<Rightarrow> 's world
     \<Rightarrow> ((exn + pydict list) \<times> 's world) option"
where
  "scrape_loop api game_data [] games_data w = Some (Inr games_data, w)"
| "scrape_loop api game_data (batch_ids # rest) games_data w =
     (case fetch_game_details api batch_ids w of
        None \<Rightarrow> None
      | Some (NoneReturned, w1) \<Rightarrow> Some (Inl TypeError, w1)
      | Some (Details batch_data, w1) \<Rightarrow>
          (case merge_batch game_data batch_data games_data of
             Inl e \<Rightarrow> Some (Inl e, w1)
           | Inr games_data' \<Rightarrow> scrape_loop api game_data rest games_data' (sleep 1 w1)))"

definition scrape_games ::
  "'s service \<Rightarrow> pydict list \<Rightarrow> 's world \<Rightarrow> ((exn + pydict list) \<times> 's world) option"
where
  "scrape_games api game_data w =
     (case universe_ids_of game_data of
        Inl e \<Rightarrow> Some (Inl e, w)
      | Inr universe_ids \<Rightarrow> scrape_loop api game_data (batches 50 universe_ids) [] w)"

section \<open>The join in the words of the specification\<close>

text \<open>
  The id of a record, and whether a record has one. The three counters that the merge
  copies from a basic record. The join of one detail record with the basic list: the
  first basic record with an equal id gives its counters, and a detail record without
  such a basic record gives nothing.
\<close>

definition universe_id :: "pydict \<Rightarrow> pyval" where
  "universe_id d = dict_get d ''UniverseId'' PNone"

definition has_universe_id :: "pydict \<Rightarrow> bool" where
  "has_universe_id d = (map_of d ''UniverseId'' \<noteq> None)"

definition counters :: "pydict \<Rightarrow> pydict" where
  "counters basic =
     [(''PlayerCount'', dict_get basic ''PlayerCount'' (PInt 0)),
      (''Upvotes'', dict_get basic ''Upvotes'' (PInt 0)),
      (''Downvotes'', dict_get basic ''Downvotes'' (PInt 0))]"

definition join_detail :: "pydict list \<Rightarrow> pydict \<Rightarrow> pydict list" where
  "join_detail game_data detail =
     (case find (\<lambda>basic. py_eq (universe_id basic) (universe_id detail)) game_data of
        None \<Rightarrow> []
      | Some basic \<Rightarrow> [dict_update detail (counters basic)])"

definition join_batch :: "pydict list \<Rightarrow> pydict list \<Rightarrow> pydict list" where
  "join_batch game_data batch_data = concat (map (join_detail game_data) batch_data)"

section \<open>A listing page in the words of the specification\<close>

text \<open>
  A page of the expected shape is an object whose \<open>sorts\<close> is a list of objects, each with
  a list \<open>games\<close> of objects; \<open>page_games\<close> gives its items in page order, and
  \<open>None\<close> for a page of another shape. \<open>record_of\<close> is the basic record of an item, and
  \<open>kept\<close> the records of the items whose id is true as a condition.
\<close>

fun is_dict :: "pyval \<Rightarrow> bool" where
  "is_dict (PDict d) = True"
| "is_dict _ = False"

fun games_of_sort :: "pyval \<Rightarrow> pyval list option" where
  "games_of_sort (PDict s) =
     (case dict_get s ''games'' (PList []) of
        PList gs \<Rightarrow> if list_all is_dict gs then Some gs else None
      | _ \<Rightarrow> None)"
| "games_of_sort _ = None"

fun games_of_sorts :: "pyval list \<Rightarrow> pyval list option" where
  "games_of_sorts [] = Some []"
| "games_of_sorts (s # sorts) =
     (case games_of_sort s of
        None \<Rightarrow> None
      | Some gs \<Rightarrow> (case games_of_sorts sorts of None \<Rightarrow> None | Some hs \<Rightarrow> Some (gs @ hs)))"

fun page_games :: "pyval \<Rightarrow> pyval list option" where
  "page_games (PDict page) =
     (case dict_get page ''sorts'' (PList []) of
        PList sorts \<Rightarrow> games_of_sorts sorts
      | _ \<Rightarrow> None)"
| "page_games _ = None"

definition record_of :: "pyval \<Rightarrow> pydict" where
  "record_of game = (case game_data_of game of Inl e \<Rightarrow> [] | Inr game_data \<Rightarrow> game_data)"

definition kept :: "pyval list \<Rightarrow> pydict list" where
  "kept games = filter (\<lambda>game_data. truthy (universe_id game_data)) (map record_of games)"

section \<open>Runs of the two loops\<close>

text \<open>
  The \<open>k\<close>-th request of \<open>fetch_game_details\<close> for a batch, when every request before
  it was answered by a 429: the response it gets and the world after it.
\<close>

primrec attempt :: "'s service \<Rightarrow> pyval list \<Rightarrow> 's world \<Rightarrow> nat \<Rightarrow> response \<times> 's world" where
  "attempt api universe_ids w 0 = http_get api (GetGames universe_ids) w"
| "attempt api universe_ids w (Suc k) =
     attempt api universe_ids (sleep 5 (snd (http_get api (GetGames universe_ids) w))) k"

text \<open>
  The \<open>while\<close> loop of \<open>fetch_game_ids_from_api\<close> cut off after \<open>n\<close> tests of its
  condition: \<open>None\<close> when the loop is still running then.
\<close>

fun fetch_game_ids_fuel ::
  "nat \<Rightarrow> 's service \<Rightarrow> string \<Rightarrow> int \<Rightarrow> pydict list \<Rightarrow> pyval \<Rightarrow> 's world
     \<Rightarrow> (pydict list \<times> 's world) option"
where
  "fetch_game_ids_fuel 0 api session_id max_games all_game_data sorts_page_token w = None"
| "fetch_game_ids_fuel (Suc n) api session_id max_games all_game_data sorts_page_token w =
     (if int (length all_game_data) < max_games then
        (case http_get api
                (GetSorts session_id
                   (if truthy sorts_page_token then Some sorts_page_token else None)) w of
           (resp, w1) \<Rightarrow>
             if status_code resp \<noteq> 200 then Some (all_game_data, w1)
             else
               (case page_try resp all_game_data of
                  (NextPage token, all') \<Rightarrow>
                    fetch_game_ids_fuel n api session_id max_games all' token (sleep 1 w1)
                | (NoMorePages, all') \<Rightarrow> Some (all', w1)
                | (PageRaised e, all') \<Rightarrow> Some (all', w1)))
      else Some (all_game_data, w))"

section \<open>Services for concrete runs\<close>

text \<open>A service that gives the same response to every request.\<close>

definition always :: "response \<Rightarrow> unit service" where
  "always resp s t req = (resp, s)"

text \<open>
  A service that hands out prepared responses one after the other, and status 500 once
  they are used up.
\<close>

definition canned :: "response list service" where
  "canned s t req =
     (case s of
        [] \<Rightarrow> (\<lparr>status_code = 500, body = None\<rparr>, [])
      | resp # rest \<Rightarrow> (resp, rest))"

definition start :: "'s \<Rightarrow> 's world" where
  "start s = \<lparr>clock = 0, requests = [], server = s\<rparr>"

definition ok_json :: "pyval \<Rightarrow> response" where
  "ok_json doc = \<lparr>status_code = 200, body = Some doc\<rparr>"

definition status_only :: "int \<Rightarrow> response" where
  "status_only code = \<lparr>status_code = code, body = None\<rparr>"

text \<open>
  Records and documents for concrete runs: a basic record with its counters, the detail
  record that \<open>fetch_game_details\<close> makes of a game that only has an id, and the
  document of the detail endpoint for a list of such games.
\<close>

definition basic_record :: "int \<Rightarrow> int \<Rightarrow> int \<Rightarrow> int \<Rightarrow> pydict" where
  "basic_record i players up down =
     [(''UniverseId'', PInt i), (''Name'', PStr ''N/A''), (''PlayerCount'', PInt players),
      (''Upvotes'', PInt up), (''Downvotes'', PInt down)]"

definition detail_record :: "int \<Rightarrow> pydict" where
  "detail_record i =
     [(''UniverseId'', PInt i), (''Name'', PStr ''N/A''), (''Genre'', PStr ''N/A''),
      (''Created Date'', PStr ''N/A''), (''Updated Date'', PStr ''N/A''),
      (''Max Players'', PStr ''N/A''), (''Playability Status'', PStr ''N/A''),
      (''Is Experimental'', PBool False), (''Price'', PInt 0), (''Visits'', PInt 0),
      (''Developer'', PStr ''N/A''), (''Thumbnail URL'', PStr ''N/A'')]"

definition games_json :: "int list \<Rightarrow> pyval" where
  "games_json is = PDict [(''data'', PList (map (\<lambda>i. PDict [(''id'', PInt i)]) is))]"

text \<open>The document of the listing endpoint for one sort with the given games.\<close>

definition listing_json :: "pyval list \<Rightarrow> pyval option \<Rightarrow> pyval" where
  "listing_json games token =
     PDict ((''sorts'', PList [PDict [(''games'', PList games)]]) #
            (case token of None \<Rightarrow> [] | Some t \<Rightarrow> [(''nextSortsPageToken'', t)]))"

section \<open>Properties of \<open>fetch_game_details\<close>\<close>

lemma fetch_retry:
  assumes "status_code (fst (http_get api (GetGames ids) w)) = 429"
  shows "fetch_game_details api ids w =
     fetch_game_details api ids (sleep 5 (snd (http_get api (GetGames ids) w)))"
proof -
  obtain resp w1 where h: "http_get api (GetGames ids) w = (resp, w1)"
    by (cases "http_get api (GetGames ids) w")
  with assms show ?thesis
    by (subst fetch_game_details.simps) simp
qed

lemma fetch_answer:
  assumes "status_code (fst (http_get api (GetGames ids) w)) \<noteq> 429"
  shows "fetch_game_details api ids w =
     Some (details_result (fst (http_get api (GetGames ids) w)),
           snd (http_get api (GetGames ids) w))"
proof -
  obtain resp w1 where h: "http_get api (GetGames ids) w = (resp, w1)"
    by (cases "http_get api (GetGames ids) w")
  with assms show ?thesis
    by (subst fetch_game_details.simps) simp
qed

lemma fetch_some_attempt:
  assumes "fetch_game_details api ids w = Some r"
  shows "\<exists>k. status_code (fst (attempt api ids w k)) \<noteq> 429"
  using assms
proof (induct api ids w r rule: fetch_game_details.raw_induct)
  case (1 f api ids w r)
  show ?case
  proof (cases "status_code (fst (http_get api (GetGames ids) w)) = 429")
    case True
    with 1(3) have
      "fetch_game_details api ids (sleep 5 (snd (http_get api (GetGames ids) w))) = Some r"
      by (simp add: fetch_retry)
    moreover from True 1(2) have
      "f api ids (sleep 5 (snd (http_get api (GetGames ids) w))) = Some r"
      by (simp split: prod.splits)
    ultimately obtain k where
      "status_code (fst (attempt api ids (sleep 5 (snd (http_get api (GetGames ids) w))) k))
         \<noteq> 429"
      using 1(1) by blast
    then have "status_code (fst (attempt api ids w (Suc k))) \<noteq> 429" by simp
    then show ?thesis ..
  next
    case False
    then have "status_code (fst (attempt api ids w 0)) \<noteq> 429" by simp
    then show ?thesis ..
  qed
qed (rule assms)

lemma http_get_requests [simp]:
  "requests (snd (http_get api req w)) = requests w @ [req]"
  by (simp add: http_get_def split: prod.splits)

lemma http_get_clock [simp]: "clock (snd (http_get api req w)) = clock w"
  by (simp add: http_get_def split: prod.splits)

lemma sleep_fields [simp]:
  "clock (sleep d w) = clock w + d" "requests (sleep d w) = requests w"
  "server (sleep d w) = server w"
  by (simp_all add: sleep_def)

lemma start_fields [simp]:
  "clock (start s) = 0" "requests (start s) = []" "server (start s) = s"
  by (simp_all add: start_def)

lemma attempt_requests:
  "requests (snd (attempt api ids w k)) = requests w @ replicate (Suc k) (GetGames ids)"
  by (induction k arbitrary: w) (simp_all add: replicate_app_Cons_same)

lemma attempt_clock: "clock (snd (attempt api ids w k)) = clock w + 5 * k"
  by (induction k arbitrary: w) simp_all

lemma fetch_at_attempt:
  assumes "\<forall>j<k. status_code (fst (attempt api ids w j)) = 429"
    and "status_code (fst (attempt api ids w k)) \<noteq> 429"
  shows "fetch_game_details api ids w =
     Some (details_result (fst (attempt api ids w k)), snd (attempt api ids w k))"
  using assms
proof (induction k arbitrary: w)
  case 0
  then show ?case by (simp add: fetch_answer)
next
  case (Suc k)
  from Suc.prems(1) have first: "status_code (fst (http_get api (GetGames ids) w)) = 429"
    by (metis attempt.simps(1) zero_less_Suc)
  let ?w = "sleep 5 (snd (http_get api (GetGames ids) w))"
  have "\<forall>j<k. status_code (fst (attempt api ids ?w j)) = 429"
  proof (intro allI impI)
    fix j assume "j < k"
    then have "Suc j < Suc k" by simp
    with Suc.prems(1) have "status_code (fst (attempt api ids w (Suc j))) = 429" by blast
    then show "status_code (fst (attempt api ids ?w j)) = 429" by simp
  qed
  moreover from Suc.prems(2) have "status_code (fst (attempt api ids ?w k)) \<noteq> 429" by simp
  ultimately have "fetch_game_details api ids ?w =
     Some (details_result (fst (attempt api ids ?w k)), snd (attempt api ids ?w k))"
    by (rule Suc.IH)
  with first show ?case by (simp add: fetch_retry)
qed

lemma fetch_returns:
  assumes "status_code (fst (attempt api ids w k)) \<noteq> 429"
  shows "\<exists>r. fetch_game_details api ids w = Some r"
proof -
  define m where "m = (LEAST j. status_code (fst (attempt api ids w j)) \<noteq> 429)"
  have a: "status_code (fst (attempt api ids w m)) \<noteq> 429"
    unfolding m_def using assms by (rule LeastI)
  have b: "\<forall>j<m. status_code (fst (attempt api ids w j)) = 429"
    unfolding m_def using not_less_Least by blast
  from fetch_at_attempt[OF b a] show ?thesis by blast
qed



lemma always_429: "status_code (fst (attempt (always (status_only 429)) ids w k)) = 429"
  by (induction k arbitrary: w) (simp_all add: http_get_def always_def status_only_def)




lemma batches_Nil [simp]: "batches n [] = []"
  by (cases n) (simp_all add: batches_def)

lemma batches_step:
  assumes "0 < n" and "xs \<noteq> []"
  shows "batches n xs = take n xs # batches n (drop n xs)"
proof -
  from assms have "length xs + n - 1 = (length xs - 1) + n" by (cases xs) simp_all
  then have "(length xs + n - 1) div n = ((length xs - 1) + n) div n" by (rule arg_cong)
  also from assms have "\<dots> = Suc ((length xs - 1) div n)"
    using div_add_self2[of n "length xs - 1"] by simp
  finally have cnt: "(length xs + n - 1) div n = Suc ((length xs - 1) div n)" .
  have rest: "(length xs - n + n - 1) div n = (length xs - 1) div n"
  proof (cases "length xs \<le> n")
    case True
    with assms show ?thesis by (cases xs) simp_all
  next
    case False
    then show ?thesis by simp
  qed
  have upt: "[0..<Suc ((length xs - 1) div n)] = 0 # map Suc [0..<(length xs - 1) div n]"
    by (simp add: upt_conv_Cons map_Suc_upt del: upt_Suc)
  have "batches n xs =
     map (\<lambda>j. take n (drop (j * n) xs)) (0 # map Suc [0..<(length xs - 1) div n])"
    unfolding batches_def cnt upt ..
  also have "\<dots> = take n xs # map (\<lambda>j. take n (drop (j * n) (drop n xs))) [0..<(length xs - 1) div n]"
    by (simp add: comp_def add.commute)
  also have "map (\<lambda>j. take n (drop (j * n) (drop n xs))) [0..<(length xs - 1) div n]
     = batches n (drop n xs)"
    unfolding batches_def using rest by simp
  finally show ?thesis .
qed

text \<open>
  Claim C1. A 200 response whose document is an object without the key \<open>data\<close> is not of
  the expected shape. \<open>fetch_game_details\<close> returns \<open>None\<close> for it, not the empty list,
  and \<open>scrape_games\<close> raises \<open>TypeError\<close> when it walks through that result.
\<close>

theorem fetch_game_details_missing_data:
  "fetch_game_details (always (ok_json (PDict []))) [PInt 1] (start ())
     = Some (NoneReturned, \<lparr>clock = 0, requests = [GetGames [PInt 1]], server = ()\<rparr>)
   \<and> scrape_games (always (ok_json (PDict [])))
       [[(''UniverseId'', PInt 1), (''Name'', PStr ''Obby''), (''PlayerCount'', PInt 0),
         (''Upvotes'', PInt 0), (''Downvotes'', PInt 0)]] (start ())
     = Some (Inl TypeError, \<lparr>clock = 0, requests = [GetGames [PInt 1]], server = ()\<rparr>)"
proof -
  have f: "fetch_game_details (always (ok_json (PDict []))) [PInt 1] (start ())
     = Some (NoneReturned, \<lparr>clock = 0, requests = [GetGames [PInt 1]], server = ()\<rparr>)"
    by (subst fetch_answer)
      (simp_all add: http_get_def always_def ok_json_def start_def details_result_def
        details_try_def)
  have b: "batches 50 [PInt 1] = [[PInt 1]]"
    by (simp add: batches_step)
  show ?thesis
    by (simp add: f scrape_games_def dict_index_def b)
qed

section \<open>Properties of the merge and of \<open>scrape_games\<close>\<close>

lemma dict_index_has:
  "has_universe_id d \<Longrightarrow> dict_index d ''UniverseId'' = Inr (universe_id d)"
  by (auto simp: has_universe_id_def dict_index_def universe_id_def dict_get_def)

lemma dict_index_Inr:
  "dict_index d ''UniverseId'' = Inr v \<Longrightarrow> has_universe_id d \<and> v = universe_id d"
  by (auto simp: has_universe_id_def dict_index_def universe_id_def dict_get_def
      split: option.splits)

lemma universe_ids_of_all:
  "\<forall>b\<in>set game_data. has_universe_id b \<Longrightarrow>
   universe_ids_of game_data = Inr (map universe_id game_data)"
  by (induction game_data) (simp_all add: dict_index_has)

lemma universe_ids_of_Inr:
  "universe_ids_of game_data = Inr ids \<Longrightarrow>
   (\<forall>b\<in>set game_data. has_universe_id b) \<and> ids = map universe_id game_data"
proof (induction game_data arbitrary: ids)
  case Nil
  then show ?case by simp
next
  case (Cons g gs)
  from Cons.prems obtain u us where
    u: "dict_index g ''UniverseId'' = Inr u" and us: "universe_ids_of gs = Inr us"
    and ids: "ids = u # us"
    by (auto split: sum.splits)
  from Cons.IH[OF us] dict_index_Inr[OF u] ids show ?case by simp
qed

lemma merge_detail_join:
  assumes "\<forall>b\<in>set game_data. has_universe_id b" and "has_universe_id detail"
  shows "merge_detail game_data detail games_data =
     Inr (games_data @ join_detail game_data detail)"
  using assms(1)
proof (induction game_data)
  case Nil
  show ?case by (simp add: join_detail_def)
next
  case (Cons b bs)
  then have ih: "merge_detail bs detail games_data = Inr (games_data @ join_detail bs detail)"
    by simp
  from Cons.prems have hb: "has_universe_id b" by simp
  show ?case
    using ih assms(2) hb
    by (simp add: dict_index_has join_detail_def counters_def)
qed

lemma merge_batch_join:
  assumes "\<forall>b\<in>set game_data. has_universe_id b" and "\<forall>d\<in>set batch_data. has_universe_id d"
  shows "merge_batch game_data batch_data games_data =
     Inr (games_data @ join_batch game_data batch_data)"
  using assms(2)
proof (induction batch_data arbitrary: games_data)
  case Nil
  show ?case by (simp add: join_batch_def)
next
  case (Cons d ds)
  then show ?case
    using assms(1) by (simp add: merge_detail_join join_batch_def)
qed

lemma detail_of_has: "detail_of g = Inr d \<Longrightarrow> has_universe_id d"
  by (cases g) (auto simp: has_universe_id_def split: sum.splits)

lemma details_of_has: "details_of gs = Inr ds \<Longrightarrow> \<forall>d\<in>set ds. has_universe_id d"
  by (induction gs arbitrary: ds) (auto split: sum.splits dest: detail_of_has)

lemma details_result_has:
  "details_result resp = Details ds \<Longrightarrow> \<forall>d\<in>set ds. has_universe_id d"
  by (auto simp: details_result_def details_try_def
      split: if_splits sum.splits option.splits bool.splits dest: details_of_has)


lemma fetch_result_form:
  assumes "fetch_game_details api ids w = Some (r, w')"
  shows "\<exists>k. status_code (fst (attempt api ids w k)) \<noteq> 429
           \<and> r = details_result (fst (attempt api ids w k)) \<and> w' = snd (attempt api ids w k)"
proof -
  from fetch_some_attempt[OF assms] obtain k0 where
    k0: "status_code (fst (attempt api ids w k0)) \<noteq> 429" ..
  define m where "m = (LEAST j. status_code (fst (attempt api ids w j)) \<noteq> 429)"
  have a: "status_code (fst (attempt api ids w m)) \<noteq> 429"
    unfolding m_def using k0 by (rule LeastI)
  have b: "\<forall>j<m. status_code (fst (attempt api ids w j)) = 429"
    unfolding m_def using not_less_Least by blast
  from fetch_at_attempt[OF b a] assms a show ?thesis by auto
qed

lemma fetch_details_has:
  assumes "fetch_game_details api ids w = Some (Details ds, w')"
  shows "\<forall>d\<in>set ds. has_universe_id d"
proof -
  from fetch_result_form[OF assms] obtain k where
    "Details ds = details_result (fst (attempt api ids w k))" by blast
  then show ?thesis by (metis details_result_has)
qed

lemma scrape_loop_shape:
  assumes "\<forall>b\<in>set game_data. has_universe_id b"
    and "scrape_loop api game_data bs games_data w = Some (Inr out, w')"
  shows "\<exists>dss. list_all2
            (\<lambda>b ds. \<exists>w1 w2. fetch_game_details api b w1 = Some (Details ds, w2)) bs dss
          \<and> out = games_data @ concat (map (join_batch game_data) dss)"
  using assms(2)
proof (induction bs arbitrary: games_data w)
  case Nil
  then show ?case by simp
next
  case (Cons b bs)
  from Cons.prems obtain ds w1 where
    f: "fetch_game_details api b w = Some (Details ds, w1)"
    by (auto split: option.splits details.splits sum.splits)
  from fetch_details_has[OF f] have "\<forall>d\<in>set ds. has_universe_id d" .
  with assms(1) have m: "merge_batch game_data ds games_data =
      Inr (games_data @ join_batch game_data ds)"
    by (rule merge_batch_join)
  with Cons.prems f have
    "scrape_loop api game_data bs (games_data @ join_batch game_data ds) (sleep 1 w1)
       = Some (Inr out, w')"
    by simp
  from Cons.IH[OF this] obtain dss where
    d: "list_all2 (\<lambda>b ds. \<exists>w1 w2. fetch_game_details api b w1 = Some (Details ds, w2)) bs dss"
    and o: "out = (games_data @ join_batch game_data ds) @ concat (map (join_batch game_data) dss)"
    by blast
  from f d have "list_all2
      (\<lambda>b ds. \<exists>w1 w2. fetch_game_details api b w1 = Some (Details ds, w2)) (b # bs) (ds # dss)"
    by auto
  moreover from o have "out = games_data @ concat (map (join_batch game_data) (ds # dss))"
    by simp
  ultimately show ?case by blast
qed

lemma scrape_games_shape:
  assumes "scrape_games api game_data w = Some (Inr out, w')"
  shows "\<exists>dss. list_all2
            (\<lambda>b ds. \<exists>w1 w2. fetch_game_details api b w1 = Some (Details ds, w2))
            (batches 50 (map universe_id game_data)) dss
          \<and> out = concat (map (join_batch game_data) dss)"
proof -
  from assms obtain ids where ids: "universe_ids_of game_data = Inr ids"
    and loop: "scrape_loop api game_data (batches 50 ids) [] w = Some (Inr out, w')"
    by (auto simp: scrape_games_def split: sum.splits)
  from universe_ids_of_Inr[OF ids] have h: "\<forall>b\<in>set game_data. has_universe_id b"
    and i: "ids = map universe_id game_data" by simp_all
  from scrape_loop_shape[OF h loop] i show ?thesis by simp
qed

lemma join_detail_member:
  assumes "m \<in> set (join_detail game_data detail)"
  shows "\<exists>basic\<in>set game_data. py_eq (universe_id basic) (universe_id detail)
           \<and> m = dict_update detail (counters basic)"
proof (cases "find (\<lambda>basic. py_eq (universe_id basic) (universe_id detail)) game_data")
  case None
  with assms show ?thesis by (simp add: join_detail_def)
next
  case (Some basic)
  with assms have m: "m = dict_update detail (counters basic)"
    by (simp add: join_detail_def)
  from Some have "basic \<in> set game_data" "py_eq (universe_id basic) (universe_id detail)"
    by (auto simp: find_Some_iff)
  with m show ?thesis by blast
qed



lemma map_of_dict_set: "map_of (dict_set k v d) = (map_of d)(k \<mapsto> v)"
  by (induction d) (auto simp: fun_eq_iff)

lemma map_of_update_counters:
  "map_of (dict_update detail (counters basic)) =
     (map_of detail)(''PlayerCount'' \<mapsto> dict_get basic ''PlayerCount'' (PInt 0),
        ''Upvotes'' \<mapsto> dict_get basic ''Upvotes'' (PInt 0),
        ''Downvotes'' \<mapsto> dict_get basic ''Downvotes'' (PInt 0))"
  by (simp add: counters_def map_of_dict_set)

lemma universe_id_update [simp]:
  "universe_id (dict_update detail (counters basic)) = universe_id detail"
  by (simp add: universe_id_def dict_get_def map_of_update_counters)

lemma dict_set_fresh: "k \<notin> fst ` set d \<Longrightarrow> dict_set k v d = d @ [(k, v)]"
  by (induction d) auto

lemma update_counters_fresh:
  assumes "{''PlayerCount'', ''Upvotes'', ''Downvotes''} \<inter> fst ` set detail = {}"
  shows "dict_update detail (counters basic) = detail @ counters basic"
  using assms by (simp add: counters_def dict_set_fresh)

lemma map_universe_id_join_detail:
  "map universe_id (join_detail game_data detail) =
     filter (\<lambda>d. list_ex (\<lambda>b. py_eq b d) (map universe_id game_data)) [universe_id detail]"
proof (cases "find (\<lambda>basic. py_eq (universe_id basic) (universe_id detail)) game_data")
  case None
  then have "\<forall>b\<in>set game_data. \<not> py_eq (universe_id b) (universe_id detail)"
    by (simp add: find_None_iff)
  with None show ?thesis
    by (simp add: join_detail_def list_ex_iff)
next
  case (Some basic)
  then have "basic \<in> set game_data" "py_eq (universe_id basic) (universe_id detail)"
    by (auto simp: find_Some_iff)
  with Some show ?thesis
    by (auto simp: join_detail_def list_ex_iff)
qed

lemma map_universe_id_join_batch:
  "map universe_id (join_batch game_data batch_data) =
     filter (\<lambda>d. list_ex (\<lambda>b. py_eq b d) (map universe_id game_data))
       (map universe_id batch_data)"
proof (induction batch_data)
  case Nil
  show ?case by (simp add: join_batch_def)
next
  case (Cons d ds)
  have "join_batch game_data (d # ds) = join_detail game_data d @ join_batch game_data ds"
    by (simp add: join_batch_def)
  then show ?case
    using Cons.IH map_universe_id_join_detail[of game_data d] by simp
qed

text \<open>
  Claim C10. The merged records come batch by batch in the order of the batches, and
  inside a batch in the order in which the detail endpoint listed the detail records;
  the ids of the output are the ids of the detail records that match a basic id, in that
  order. When the endpoint lists id 2 before id 1, so does the output, whatever the order
  of the basic list.
\<close>

theorem merged_order_follows_details:
  assumes "scrape_games api game_data w = Some (Inr out, w')"
  shows "\<exists>dss. list_all2
            (\<lambda>b ds. \<exists>w1 w2. fetch_game_details api b w1 = Some (Details ds, w2))
            (batches 50 (map universe_id game_data)) dss
          \<and> out = concat (map (join_batch game_data) dss)
          \<and> map universe_id out =
              concat (map (\<lambda>ds. filter (\<lambda>d. list_ex (\<lambda>b. py_eq b d) (map universe_id game_data))
                                  (map universe_id ds)) dss)"
proof -
  from scrape_games_shape[OF assms] obtain dss where
    d: "list_all2 (\<lambda>b ds. \<exists>w1 w2. fetch_game_details api b w1 = Some (Details ds, w2))
          (batches 50 (map universe_id game_data)) dss"
    and o: "out = concat (map (join_batch game_data) dss)"
    by blast
  from o have "map universe_id out =
      concat (map (\<lambda>ds. map universe_id (join_batch game_data ds)) dss)"
    by (simp add: map_concat comp_def)
  then have "map universe_id out =
      concat (map (\<lambda>ds. filter (\<lambda>d. list_ex (\<lambda>b. py_eq b d) (map universe_id game_data))
                          (map universe_id ds)) dss)"
    by (simp add: map_universe_id_join_batch)
  with d o show ?thesis by blast
qed

lemma find_first:
  assumes "\<forall>y\<in>set ys. \<not> P y" and "P x"
  shows "find P (ys @ x # zs) = Some x"
  using assms by (induction ys) simp_all

text \<open>
  Claim C7. For a detail record with a matching basic record, the merge appends the detail
  record with the three counters of the first matching basic record stored under
  \<open>PlayerCount\<close>, \<open>Upvotes\<close> and \<open>Downvotes\<close> (0 for a counter the basic
  record lacks); every other key keeps its value, and no other key is added. A detail
  record without these three keys gets them at its end.
\<close>

theorem merge_detail_first_match:
  assumes "\<forall>b\<in>set game_data. has_universe_id b" and "has_universe_id detail"
    and "\<exists>b\<in>set game_data. py_eq (universe_id b) (universe_id detail)"
  shows "\<exists>pre basic post merged.
           game_data = pre @ basic # post
         \<and> (\<forall>b\<in>set pre. \<not> py_eq (universe_id b) (universe_id detail))
         \<and> py_eq (universe_id basic) (universe_id detail)
         \<and> merge_detail game_data detail games_data = Inr (games_data @ [merged])
         \<and> map_of merged ''PlayerCount'' = Some (dict_get basic ''PlayerCount'' (PInt 0))
         \<and> map_of merged ''Upvotes'' = Some (dict_get basic ''Upvotes'' (PInt 0))
         \<and> map_of merged ''Downvotes'' = Some (dict_get basic ''Downvotes'' (PInt 0))
         \<and> (\<forall>k. k \<notin> {''PlayerCount'', ''Upvotes'', ''Downvotes''}
                \<longrightarrow> map_of merged k = map_of detail k)
         \<and> fst ` set merged = fst ` set detail \<union> {''PlayerCount'', ''Upvotes'', ''Downvotes''}
         \<and> ({''PlayerCount'', ''Upvotes'', ''Downvotes''} \<inter> fst ` set detail = {}
                \<longrightarrow> merged = detail @
                      [(''PlayerCount'', dict_get basic ''PlayerCount'' (PInt 0)),
                       (''Upvotes'', dict_get basic ''Upvotes'' (PInt 0)),
                       (''Downvotes'', dict_get basic ''Downvotes'' (PInt 0))])"
proof -
  let ?P = "\<lambda>b. py_eq (universe_id b) (universe_id detail)"
  from split_list_first_prop[OF assms(3)] obtain pre basic post where
    g: "game_data = pre @ basic # post" and p: "?P basic" and n: "\<forall>b\<in>set pre. \<not> ?P b"
    by blast
  let ?m = "dict_update detail (counters basic)"
  from n p have "find ?P game_data = Some basic"
    unfolding g by (rule find_first)
  then have j: "join_detail game_data detail = [?m]"
    by (simp add: join_detail_def)
  have r: "merge_detail game_data detail games_data = Inr (games_data @ [?m])"
    using merge_detail_join[OF assms(1,2)] j by simp
  have "dom (map_of ?m) = dom (map_of detail) \<union> {''PlayerCount'', ''Upvotes'', ''Downvotes''}"
    unfolding map_of_update_counters by auto
  then have k: "fst ` set ?m = fst ` set detail \<union> {''PlayerCount'', ''Upvotes'', ''Downvotes''}"
    by (simp add: dom_map_of_conv_image_fst)
  have f: "{''PlayerCount'', ''Upvotes'', ''Downvotes''} \<inter> fst ` set detail = {}
      \<longrightarrow> ?m = detail @
            [(''PlayerCount'', dict_get basic ''PlayerCount'' (PInt 0)),
             (''Upvotes'', dict_get basic ''Upvotes'' (PInt 0)),
             (''Downvotes'', dict_get basic ''Downvotes'' (PInt 0))]"
    using update_counters_fresh[of detail basic] by (simp add: counters_def)
  have v: "map_of ?m ''PlayerCount'' = Some (dict_get basic ''PlayerCount'' (PInt 0))"
    "map_of ?m ''Upvotes'' = Some (dict_get basic ''Upvotes'' (PInt 0))"
    "map_of ?m ''Downvotes'' = Some (dict_get basic ''Downvotes'' (PInt 0))"
    "\<forall>k. k \<notin> {''PlayerCount'', ''Upvotes'', ''Downvotes''} \<longrightarrow> map_of ?m k = map_of detail k"
    by (simp_all add: map_of_update_counters)
  from g n p r v k f show ?thesis by blast
qed

lemma fst_http_get: "fst (http_get api req w) = fst (api (server w) (clock w) req)"
  by (simp add: http_get_def split: prod.splits)

lemma concat_batches:
  assumes "0 < n"
  shows "concat (batches n xs) = xs"
proof (induction xs rule: length_induct)
  case (1 xs)
  show ?case
  proof (cases "xs = []")
    case True
    then show ?thesis by simp
  next
    case False
    with assms have "length (drop n xs) < length xs" by simp
    with 1 have "concat (batches n (drop n xs)) = drop n xs" by blast
    with False assms show ?thesis by (simp add: batches_step)
  qed
qed

lemma batches_sizes:
  assumes "0 < n"
  shows "(\<forall>b\<in>set (batches n xs). b \<noteq> [] \<and> length b \<le> n)
       \<and> (\<forall>b\<in>set (butlast (batches n xs)). length b = n)"
proof (induction xs rule: length_induct)
  case (1 xs)
  show ?case
  proof (cases "xs = []")
    case True
    then show ?thesis by simp
  next
    case False
    let ?R = "batches n (drop n xs)"
    from False assms have "length (drop n xs) < length xs" by simp
    with 1 have ih1: "\<forall>b\<in>set ?R. b \<noteq> [] \<and> length b \<le> n"
      and ih2: "\<forall>b\<in>set (butlast ?R). length b = n" by blast+
    have step: "batches n xs = take n xs # ?R"
      using assms False by (rule batches_step)
    from False assms have hd: "take n xs \<noteq> []" "length (take n xs) \<le> n" by simp_all
    have first: "\<forall>b\<in>set (take n xs # ?R). b \<noteq> [] \<and> length b \<le> n"
      using hd ih1 by simp
    have second: "\<forall>b\<in>set (butlast (take n xs # ?R)). length b = n"
    proof (cases "?R = []")
      case True
      then show ?thesis by simp
    next
      case ne: False
      have "drop n xs \<noteq> []"
      proof
        assume "drop n xs = []"
        then have "?R = []" by (simp only: batches_Nil)
        with ne show False ..
      qed
      then have "length (take n xs) = n" by simp
      with ne ih2 show ?thesis by simp
    qed
    from first second show ?thesis unfolding step ..
  qed
qed

lemma scrape_loop_requests:
  assumes "\<forall>b\<in>set game_data. has_universe_id b"
    and "\<forall>s t req. status_code (fst (api s t req)) \<noteq> 429
           \<and> details_result (fst (api s t req)) \<noteq> NoneReturned"
  shows "\<exists>out w'. scrape_loop api game_data bs games_data w = Some (Inr out, w')
           \<and> requests w' = requests w @ map GetGames bs
           \<and> clock w' = clock w + length bs"
proof (induction bs arbitrary: games_data w)
  case Nil
  show ?case by simp
next
  case (Cons b bs)
  let ?resp = "fst (http_get api (GetGames b) w)"
  let ?w1 = "snd (http_get api (GetGames b) w)"
  from assms(2) have ok: "status_code ?resp \<noteq> 429" and some: "details_result ?resp \<noteq> NoneReturned"
    by (simp_all add: fst_http_get)
  from some obtain ds where ds: "details_result ?resp = Details ds"
    by (cases "details_result ?resp") simp_all
  from fetch_answer[OF ok] ds have f: "fetch_game_details api b w = Some (Details ds, ?w1)"
    by simp
  from details_result_has[OF ds] assms(1) have m:
    "merge_batch game_data ds games_data = Inr (games_data @ join_batch game_data ds)"
    by (simp add: merge_batch_join)
  from Cons.IH[of "games_data @ join_batch game_data ds" "sleep 1 ?w1"] obtain out w' where
    "scrape_loop api game_data bs (games_data @ join_batch game_data ds) (sleep 1 ?w1)
       = Some (Inr out, w')"
    "requests w' = requests (sleep 1 ?w1) @ map GetGames bs"
    "clock w' = clock (sleep 1 ?w1) + length bs"
    by blast
  with f m show ?case by simp
qed


lemma batch_lengths:
  "map length (batches n xs) =
     map (\<lambda>j. min n (length xs - j * n)) [0 ..< (length xs + n - 1) div n]"
  by (simp add: batches_def comp_def min.commute)



lemma details_result_games_json:
  "details_result (ok_json (games_json is)) = Details (map detail_record is)"
proof -
  have "details_of (map (\<lambda>i. PDict [(''id'', PInt i)]) is) = Inr (map detail_record is)"
    by (induction "is") (simp_all add: detail_record_def dict_get_def)
  then show ?thesis
    by (simp add: details_result_def details_try_def ok_json_def games_json_def dict_index_def)
qed

lemma fetch_always:
  assumes "status_code resp \<noteq> 429"
  shows "fetch_game_details (always resp) ids w =
     Some (details_result resp, w\<lparr>requests := requests w @ [GetGames ids]\<rparr>)"
proof -
  have h: "http_get (always resp) (GetGames ids) w =
      (resp, w\<lparr>requests := requests w @ [GetGames ids]\<rparr>)"
    by (simp add: http_get_def always_def)
  from assms show ?thesis
    by (subst fetch_answer) (simp_all add: h)
qed

lemma fetch_games_json:
  "fetch_game_details (always (ok_json (games_json is))) ids w =
     Some (Details (map detail_record is), w\<lparr>requests := requests w @ [GetGames ids]\<rparr>)"
proof -
  have "status_code (ok_json (games_json is)) \<noteq> 429" by (simp add: ok_json_def)
  from fetch_always[OF this] show ?thesis by (simp add: details_result_games_json)
qed

lemma scrape_loop_step:
  assumes "fetch_game_details api b w = Some (Details ds, w1)"
    and "merge_batch game_data ds games_data = Inr games_data'"
  shows "scrape_loop api game_data (b # bs) games_data w =
     scrape_loop api game_data bs games_data' (sleep 1 w1)"
  using assms by simp

lemma scrape_two:
  assumes "merge_batch [basic_record 1 10 3 1, basic_record 2 20 5 2] (map detail_record is) []
      = Inr out"
  shows "scrape_games (always (ok_json (games_json is)))
     [basic_record 1 10 3 1, basic_record 2 20 5 2] (start ())
   = Some (Inr out, \<lparr>clock = 1, requests = [GetGames [PInt 1, PInt 2]], server = ()\<rparr>)"
proof -
  let ?gd = "[basic_record 1 10 3 1, basic_record 2 20 5 2]"
  let ?api = "always (ok_json (games_json is))"
  have b: "batches 50 [PInt 1, PInt 2] = [[PInt 1, PInt 2]]"
    by (simp add: batches_step)
  have "scrape_games ?api ?gd (start ()) = scrape_loop ?api ?gd [[PInt 1, PInt 2]] [] (start ())"
    by (simp add: scrape_games_def basic_record_def dict_index_def b del: scrape_loop.simps)
  also have "\<dots> = scrape_loop ?api ?gd [] out
      (sleep 1 ((start ())\<lparr>requests := requests (start ()) @ [GetGames [PInt 1, PInt 2]]\<rparr>))"
    by (rule scrape_loop_step[OF fetch_games_json assms])
  also have "\<dots> =
      Some (Inr out, \<lparr>clock = 1, requests = [GetGames [PInt 1, PInt 2]], server = ()\<rparr>)"
    by (simp add: sleep_def start_def)
  finally show ?thesis .
qed


theorem merged_order_follows_details_witness:
  "scrape_games (always (ok_json (games_json [2, 1])))
     [basic_record 1 10 3 1, basic_record 2 20 5 2] (start ())
   = Some (Inr [detail_record 2 @
                 [(''PlayerCount'', PInt 20), (''Upvotes'', PInt 5), (''Downvotes'', PInt 2)],
                detail_record 1 @
                 [(''PlayerCount'', PInt 10), (''Upvotes'', PInt 3), (''Downvotes'', PInt 1)]],
           \<lparr>clock = 1, requests = [GetGames [PInt 1, PInt 2]], server = ()\<rparr>)
   \<and> map universe_id [basic_record 1 10 3 1, basic_record 2 20 5 2] = [PInt 1, PInt 2]
   \<and> (\<exists>dss. list_all2
          (\<lambda>b ds. \<exists>w1 w2. fetch_game_details (always (ok_json (games_json [2, 1]))) b w1
                      = Some (Details ds, w2))
          (batches 50 (map universe_id [basic_record 1 10 3 1, basic_record 2 20 5 2])) dss
        \<and> concat (map (\<lambda>ds. filter
             (\<lambda>d. list_ex (\<lambda>b. py_eq b d)
                (map universe_id [basic_record 1 10 3 1, basic_record 2 20 5 2]))
             (map universe_id ds)) dss) = [PInt 2, PInt 1])"
proof -
  let ?gd = "[basic_record 1 10 3 1, basic_record 2 20 5 2]"
  let ?m1 = "detail_record 1 @
     [(''PlayerCount'', PInt 10), (''Upvotes'', PInt 3), (''Downvotes'', PInt 1)]"
  let ?m2 = "detail_record 2 @
     [(''PlayerCount'', PInt 20), (''Upvotes'', PInt 5), (''Downvotes'', PInt 2)]"
  have "merge_batch ?gd (map detail_record [2, 1]) [] = Inr [?m2, ?m1]"
    by (simp add: basic_record_def detail_record_def dict_index_def dict_get_def)
  then have e: "scrape_games (always (ok_json (games_json [2, 1]))) ?gd (start ())
      = Some (Inr [?m2, ?m1],
          \<lparr>clock = 1, requests = [GetGames [PInt 1, PInt 2]], server = ()\<rparr>)"
    by (rule scrape_two)
  have i: "map universe_id [?m2, ?m1] = [PInt 2, PInt 1]"
    by (simp add: universe_id_def detail_record_def dict_get_def)
  have g: "map universe_id ?gd = [PInt 1, PInt 2]"
    by (simp add: universe_id_def basic_record_def dict_get_def)
  from merged_order_follows_details[OF e] obtain dss where
    d: "list_all2
          (\<lambda>b ds. \<exists>w1 w2. fetch_game_details (always (ok_json (games_json [2, 1]))) b w1
                      = Some (Details ds, w2))
          (batches 50 (map universe_id ?gd)) dss"
    and ids: "map universe_id [?m2, ?m1] =
        concat (map (\<lambda>ds. filter (\<lambda>d. list_ex (\<lambda>b. py_eq b d) (map universe_id ?gd))
                            (map universe_id ds)) dss)"
    by blast
  have c: "concat (map (\<lambda>ds. filter (\<lambda>d. list_ex (\<lambda>b. py_eq b d) (map universe_id ?gd))
                            (map universe_id ds)) dss) = [PInt 2, PInt 1]"
    using ids[symmetric] i by (rule trans)
  from d c have "\<exists>dss. list_all2
          (\<lambda>b ds. \<exists>w1 w2. fetch_game_details (always (ok_json (games_json [2, 1]))) b w1
                      = Some (Details ds, w2))
          (batches 50 (map universe_id ?gd)) dss
        \<and> concat (map (\<lambda>ds. filter (\<lambda>d. list_ex (\<lambda>b. py_eq b d) (map universe_id ?gd))
                            (map universe_id ds)) dss) = [PInt 2, PInt 1]"
    by (intro exI conjI)
  with e g show ?thesis by (intro conjI)
qed

theorem merge_detail_first_match_witness:
  "has_universe_id (basic_record 9 7 7 7) \<and> has_universe_id (basic_record 5 10 3 1)
   \<and> has_universe_id (basic_record 5 99 99 99) \<and> has_universe_id (detail_record 5)
   \<and> py_eq (universe_id (basic_record 5 10 3 1)) (universe_id (detail_record 5))
   \<and> merge_detail [basic_record 9 7 7 7, basic_record 5 10 3 1, basic_record 5 99 99 99]
        (detail_record 5) []
      = Inr [detail_record 5 @
               [(''PlayerCount'', PInt 10), (''Upvotes'', PInt 3), (''Downvotes'', PInt 1)]]"
proof -
  let ?gd = "[basic_record 9 7 7 7, basic_record 5 10 3 1, basic_record 5 99 99 99]"
  have h: "\<forall>b\<in>set ?gd. has_universe_id b" "has_universe_id (detail_record 5)"
    by (simp_all add: has_universe_id_def basic_record_def detail_record_def)
  have p: "py_eq (universe_id (basic_record 5 10 3 1)) (universe_id (detail_record 5))"
    by (simp add: universe_id_def basic_record_def detail_record_def dict_get_def)
  then have x: "\<exists>b\<in>set ?gd. py_eq (universe_id b) (universe_id (detail_record 5))"
    by simp
  have e: "merge_detail ?gd (detail_record 5) []
      = Inr [detail_record 5 @
               [(''PlayerCount'', PInt 10), (''Upvotes'', PInt 3), (''Downvotes'', PInt 1)]]"
    by (simp add: basic_record_def detail_record_def dict_index_def dict_get_def)
  from merge_detail_first_match[OF h x, of "[]"] h p e show ?thesis
    by simp
qed

section \<open>Properties of \<open>fetch_game_ids_from_api\<close>\<close>

lemma py_take_length: "0 \<le> n \<Longrightarrow> int (length (py_take n xs)) \<le> n"
  by (simp add: py_take_def)

lemma fuel_gives_loop:
  "fetch_game_ids_fuel n api sid mx all_data tok w = Some r \<Longrightarrow>
   fetch_game_ids_loop api sid mx all_data tok w = Some r"
proof (induction n arbitrary: all_data tok w)
  case 0
  then show ?case by simp
next
  case (Suc n)
  show ?case
  proof (cases "int (length all_data) < mx")
    case False
    with Suc.prems show ?thesis
      by (subst fetch_game_ids_loop.simps) simp
  next
    case True
    obtain resp w1 where h: "http_get api
        (GetSorts sid (if truthy tok then Some tok else None)) w = (resp, w1)"
      by (cases "http_get api (GetSorts sid (if truthy tok then Some tok else None)) w")
    show ?thesis
    proof (cases "status_code resp \<noteq> 200")
      case True
      with \<open>int (length all_data) < mx\<close> h Suc.prems show ?thesis
        by (subst fetch_game_ids_loop.simps) simp
    next
      case False
      obtain e all' where p: "page_try resp all_data = (e, all')"
        by (cases "page_try resp all_data")
      show ?thesis
      proof (cases e)
        case (NextPage token)
        with \<open>int (length all_data) < mx\<close> h False p Suc.prems
        have "fetch_game_ids_fuel n api sid mx all' token (sleep 1 w1) = Some r"
          by simp
        then have "fetch_game_ids_loop api sid mx all' token (sleep 1 w1) = Some r"
          by (rule Suc.IH)
        with \<open>int (length all_data) < mx\<close> h False p NextPage show ?thesis
          by (subst fetch_game_ids_loop.simps) simp
      next
        case NoMorePages
        with \<open>int (length all_data) < mx\<close> h False p Suc.prems show ?thesis
          by (subst fetch_game_ids_loop.simps) simp
      next
        case (PageRaised x)
        with \<open>int (length all_data) < mx\<close> h False p Suc.prems show ?thesis
          by (subst fetch_game_ids_loop.simps) simp
      qed
    qed
  qed
qed

lemma loop_gives_fuel:
  assumes "fetch_game_ids_loop api sid mx all_data tok w = Some r"
  shows "\<exists>n. fetch_game_ids_fuel n api sid mx all_data tok w = Some r"
  using assms
proof (induct api sid mx all_data tok w r rule: fetch_game_ids_loop.raw_induct)
  case (1 f api sid mx all_data tok w r)
  show ?case
  proof (cases "int (length all_data) < mx")
    case False
    with 1(2) have "fetch_game_ids_fuel (Suc 0) api sid mx all_data tok w = Some r" by simp
    then show ?thesis ..
  next
    case True
    obtain resp w1 where h: "http_get api
        (GetSorts sid (if truthy tok then Some tok else None)) w = (resp, w1)"
      by (cases "http_get api (GetSorts sid (if truthy tok then Some tok else None)) w")
    show ?thesis
    proof (cases "status_code resp \<noteq> 200")
      case True
      with \<open>int (length all_data) < mx\<close> h 1(2)
      have "fetch_game_ids_fuel (Suc 0) api sid mx all_data tok w = Some r" by simp
      then show ?thesis ..
    next
      case False
      obtain e all' where p: "page_try resp all_data = (e, all')"
        by (cases "page_try resp all_data")
      show ?thesis
      proof (cases e)
        case (NextPage token)
        with \<open>int (length all_data) < mx\<close> h False p 1(2)
        have fr: "f api sid mx all' token (sleep 1 w1) = Some r" by simp
        from \<open>int (length all_data) < mx\<close> h False p NextPage 1(3)
        have "fetch_game_ids_loop api sid mx all' token (sleep 1 w1) = Some r"
          by (subst (asm) fetch_game_ids_loop.simps) simp
        with fr 1(1) obtain n where
          "fetch_game_ids_fuel n api sid mx all' token (sleep 1 w1) = Some r" by blast
        with \<open>int (length all_data) < mx\<close> h False p NextPage
        have "fetch_game_ids_fuel (Suc n) api sid mx all_data tok w = Some r" by simp
        then show ?thesis ..
      next
        case NoMorePages
        with \<open>int (length all_data) < mx\<close> h False p 1(2)
        have "fetch_game_ids_fuel (Suc 0) api sid mx all_data tok w = Some r" by simp
        then show ?thesis ..
      next
        case (PageRaised x)
        with \<open>int (length all_data) < mx\<close> h False p 1(2)
        have "fetch_game_ids_fuel (Suc 0) api sid mx all_data tok w = Some r" by simp
        then show ?thesis ..
      qed
    qed
  qed
qed (rule assms)


lemma collect_games_dicts:
  "list_all is_dict gs \<Longrightarrow> collect_games gs acc = (None, acc @ kept gs)"
proof (induction gs arbitrary: acc)
  case Nil
  show ?case by (simp add: kept_def)
next
  case (Cons g gs)
  then obtain d where g: "g = PDict d" by (cases g) simp_all
  from Cons have ih: "\<And>acc. collect_games gs acc = (None, acc @ kept gs)" by simp
  show ?case
    by (simp add: g ih kept_def record_of_def universe_id_def)
qed

lemma collect_sorts_wf:
  "games_of_sorts sorts = Some games \<Longrightarrow> collect_sorts sorts acc = (None, acc @ kept games)"
proof (induction sorts arbitrary: acc games)
  case Nil
  then show ?case by (simp add: kept_def)
next
  case (Cons s sorts)
  from Cons.prems obtain gs hs where gs: "games_of_sort s = Some gs"
    and hs: "games_of_sorts sorts = Some hs" and games: "games = gs @ hs"
    by (auto split: option.splits)
  from gs obtain d where s: "s = PDict d" by (cases s) simp_all
  from gs s have dg: "dict_get d ''games'' (PList []) = PList gs" and all: "list_all is_dict gs"
    by (auto split: pyval.splits if_splits)
  have "kept (gs @ hs) = kept gs @ kept hs" by (simp add: kept_def)
  with Cons.IH[OF hs] show ?case
    by (simp add: s dg collect_games_dicts[OF all] games)
qed

lemma page_try_wf:
  assumes "body resp = Some page" and "page_games page = Some games"
  shows "snd (page_try resp acc) = acc @ kept games"
proof -
  from assms(2) obtain d where p: "page = PDict d" by (cases page) simp_all
  with assms(2) obtain sorts where s: "dict_get d ''sorts'' (PList []) = PList sorts"
    and g: "games_of_sorts sorts = Some games"
    by (auto split: pyval.splits)
  show ?thesis
    by (simp add: page_try_def assms(1) p s collect_sorts_wf[OF g])
qed

lemma collect_games_truthy:
  "\<forall>gd\<in>set acc. truthy (universe_id gd) \<Longrightarrow>
   \<forall>gd\<in>set (snd (collect_games gs acc)). truthy (universe_id gd)"
proof (induction gs arbitrary: acc)
  case Nil
  then show ?case by simp
next
  case (Cons g gs)
  show ?case
  proof (cases "game_data_of g")
    case (Inl e)
    with Cons.prems show ?thesis by simp
  next
    case (Inr gd)
    let ?acc = "if truthy (dict_get gd ''UniverseId'' PNone) then acc @ [gd] else acc"
    from Cons.prems have "\<forall>x\<in>set ?acc. truthy (universe_id x)"
      by (simp add: universe_id_def)
    from Cons.IH[OF this] Inr show ?thesis by simp
  qed
qed

lemma collect_sorts_truthy:
  "\<forall>gd\<in>set acc. truthy (universe_id gd) \<Longrightarrow>
   \<forall>gd\<in>set (snd (collect_sorts sorts acc)). truthy (universe_id gd)"
proof (induction sorts arbitrary: acc)
  case Nil
  then show ?case by simp
next
  case (Cons s sorts)
  show ?case
  proof (cases "py_get s ''games'' (PList [])")
    case (Inl e)
    with Cons.prems show ?thesis by simp
  next
    case g: (Inr games)
    show ?thesis
    proof (cases "py_iter games")
      case (Inl e)
      with g Cons.prems show ?thesis by simp
    next
      case i: (Inr gs)
      obtain e acc' where c: "collect_games gs acc = (e, acc')"
        by (cases "collect_games gs acc")
      from collect_games_truthy[OF Cons.prems, of gs] c
      have a: "\<forall>gd\<in>set acc'. truthy (universe_id gd)" by simp
      show ?thesis
      proof (cases e)
        case None
        with g i c Cons.IH[OF a] show ?thesis by simp
      next
        case (Some x)
        with g i c a show ?thesis by simp
      qed
    qed
  qed
qed

lemma page_try_truthy:
  assumes "\<forall>gd\<in>set acc. truthy (universe_id gd)"
  shows "\<forall>gd\<in>set (snd (page_try resp acc)). truthy (universe_id gd)"
proof (cases "body resp")
  case None
  with assms show ?thesis by (simp add: page_try_def)
next
  case (Some data)
  show ?thesis
  proof (cases "py_get data ''sorts'' (PList [])")
    case (Inl e)
    with Some assms show ?thesis by (simp add: page_try_def)
  next
    case s: (Inr sorts)
    show ?thesis
    proof (cases "py_iter sorts")
      case (Inl e)
      with Some s assms show ?thesis by (simp add: page_try_def)
    next
      case i: (Inr ss)
      obtain e acc' where c: "collect_sorts ss acc = (e, acc')"
        by (cases "collect_sorts ss acc")
      from collect_sorts_truthy[OF assms, of ss] c
      have a: "\<forall>gd\<in>set acc'. truthy (universe_id gd)" by simp
      with Some s i c show ?thesis
        by (simp add: page_try_def split: option.splits sum.splits)
    qed
  qed
qed

lemma fuel_truthy:
  "fetch_game_ids_fuel n api sid mx acc tok w = Some (r, w') \<Longrightarrow>
   \<forall>gd\<in>set acc. truthy (universe_id gd) \<Longrightarrow>
   \<forall>gd\<in>set r. truthy (universe_id gd)"
proof (induction n arbitrary: acc tok w)
  case 0
  then show ?case by simp
next
  case (Suc n)
  show ?case
  proof (cases "int (length acc) < mx")
    case False
    with Suc.prems show ?thesis by simp
  next
    case True
    obtain resp w1 where h: "http_get api
        (GetSorts sid (if truthy tok then Some tok else None)) w = (resp, w1)"
      by (cases "http_get api (GetSorts sid (if truthy tok then Some tok else None)) w")
    show ?thesis
    proof (cases "status_code resp \<noteq> 200")
      case True
      with \<open>int (length acc) < mx\<close> h Suc.prems show ?thesis by simp
    next
      case False
      obtain e acc' where p: "page_try resp acc = (e, acc')"
        by (cases "page_try resp acc")
      from page_try_truthy[OF Suc.prems(2), of resp] p
      have a: "\<forall>gd\<in>set acc'. truthy (universe_id gd)" by simp
      show ?thesis
      proof (cases e)
        case (NextPage token)
        with \<open>int (length acc) < mx\<close> h False p Suc.prems(1)
        have "fetch_game_ids_fuel n api sid mx acc' token (sleep 1 w1) = Some (r, w')"
          by simp
        from Suc.IH[OF this a] show ?thesis .
      next
        case NoMorePages
        with \<open>int (length acc) < mx\<close> h False p Suc.prems(1) a show ?thesis by simp
      next
        case (PageRaised x)
        with \<open>int (length acc) < mx\<close> h False p Suc.prems(1) a show ?thesis by simp
      qed
    qed
  qed
qed

lemma set_py_take: "set (py_take n xs) \<subseteq> set xs"
  by (simp add: py_take_def set_take_subset)

lemma truthy_not_None: "truthy v \<Longrightarrow> v \<noteq> PNone"
  by auto

text \<open>
  Claim C3, as the code has it. On a page of the expected shape the loop appends the basic
  record, with the defaults for missing fields, of every item whose id is true as a
  condition, in page order, and of no other item; and no record that
  \<open>fetch_game_ids_from_api\<close> returns has an id that is \<open>None\<close>.
\<close>

theorem fetch_game_ids_keeps_truthy_ids:
  "(body resp = Some page \<longrightarrow> page_games page = Some games \<longrightarrow>
      snd (page_try resp all_game_data) = all_game_data @ kept games)
   \<and> (fetch_game_ids_from_api api session_id max_games w = Some (r, w') \<longrightarrow>
      (\<forall>game_data\<in>set r. truthy (universe_id game_data) \<and> universe_id game_data \<noteq> PNone))"
proof (intro conjI impI)
  assume "body resp = Some page" and "page_games page = Some games"
  then show "snd (page_try resp all_game_data) = all_game_data @ kept games"
    by (rule page_try_wf)
next
  assume "fetch_game_ids_from_api api session_id max_games w = Some (r, w')"
  then obtain a where l: "fetch_game_ids_loop api session_id max_games [] PNone w = Some (a, w')"
    and r: "r = py_take max_games a"
    by (auto simp: fetch_game_ids_from_api_def split: option.splits)
  from loop_gives_fuel[OF l] obtain n where
    "fetch_game_ids_fuel n api session_id max_games [] PNone w = Some (a, w')" ..
  then have "\<forall>gd\<in>set a. truthy (universe_id gd)"
    by (rule fuel_truthy) simp
  with r set_py_take[of max_games a] have "\<forall>gd\<in>set r. truthy (universe_id gd)"
    by blast
  then show "\<forall>game_data\<in>set r. truthy (universe_id game_data) \<and> universe_id game_data \<noteq> PNone"
    using truthy_not_None by blast
qed

lemma fetch_ids_single_page:
  assumes "0 < mx" and "status_code resp = 200" and "page_try resp [] = (NoMorePages, out)"
  shows "fetch_game_ids_from_api (always resp) sid mx (start ()) =
     Some (py_take mx out, \<lparr>clock = 0, requests = [GetSorts sid None], server = ()\<rparr>)"
proof -
  have "fetch_game_ids_loop (always resp) sid mx [] PNone (start ()) =
      Some (out, \<lparr>clock = 0, requests = [GetSorts sid None], server = ()\<rparr>)"
    using assms
    by (subst fetch_game_ids_loop.simps) (simp add: http_get_def always_def start_def)
  then show ?thesis by (simp add: fetch_game_ids_from_api_def)
qed

text \<open>
  An item whose id is 0 has an id that is not \<open>None\<close>, and gets no record: the test is
  \<open>if game_data["UniverseId"]\<close>.
\<close>

theorem fetch_game_ids_zero_id_counterexample:
  "fetch_game_ids_from_api
     (always (ok_json (listing_json [PDict [(''universeId'', PInt 0), (''name'', PStr ''Obby'')]] None)))
     ''s'' 10 (start ())
   = Some ([], \<lparr>clock = 0, requests = [GetSorts ''s'' None], server = ()\<rparr>)"
proof -
  have "page_try (ok_json (listing_json [PDict [(''universeId'', PInt 0), (''name'', PStr ''Obby'')]] None)) []
      = (NoMorePages, [])"
    by (simp add: page_try_def ok_json_def listing_json_def dict_get_def)
  from fetch_ids_single_page[OF _ _ this, of 10 "''s''"] show ?thesis
    by (simp add: ok_json_def py_take_def)
qed

lemma http_get_always:
  "http_get (always resp) req w = (resp, w\<lparr>requests := requests w @ [req]\<rparr>)"
  by (simp add: http_get_def always_def)

lemma fuel_two_pages:
  assumes "status_code resp = 200"
    and "page_try resp [] = (NextPage token, [a, b])"
  shows "fetch_game_ids_fuel (Suc (Suc 0)) (always resp) sid 1 [] PNone w =
      Some ([a, b], sleep 1 (w\<lparr>requests := requests w @ [GetSorts sid None]\<rparr>))"
  using assms by (simp add: http_get_always)




theorem fetch_game_ids_keeps_truthy_ids_witness:
  "page_games (listing_json
      [PDict [(''universeId'', PInt 7)], PDict [(''name'', PStr ''Obby'')],
       PDict [(''universeId'', PNone)], PDict [(''universeId'', PInt 8), (''playerCount'', PInt 3)]]
      None)
     = Some [PDict [(''universeId'', PInt 7)], PDict [(''name'', PStr ''Obby'')],
             PDict [(''universeId'', PNone)],
             PDict [(''universeId'', PInt 8), (''playerCount'', PInt 3)]]
   \<and> snd (page_try (ok_json (listing_json
      [PDict [(''universeId'', PInt 7)], PDict [(''name'', PStr ''Obby'')],
       PDict [(''universeId'', PNone)], PDict [(''universeId'', PInt 8), (''playerCount'', PInt 3)]]
      None)) [])
     = [basic_record 7 0 0 0, basic_record 8 3 0 0]
   \<and> fetch_game_ids_from_api (always (ok_json (listing_json
      [PDict [(''universeId'', PInt 7)], PDict [(''name'', PStr ''Obby'')],
       PDict [(''universeId'', PNone)], PDict [(''universeId'', PInt 8), (''playerCount'', PInt 3)]]
      None))) ''s'' 10 (start ())
     = Some ([basic_record 7 0 0 0, basic_record 8 3 0 0],
             \<lparr>clock = 0, requests = [GetSorts ''s'' None], server = ()\<rparr>)
   \<and> truthy (universe_id (basic_record 7 0 0 0)) \<and> universe_id (basic_record 7 0 0 0) \<noteq> PNone
   \<and> truthy (universe_id (basic_record 8 3 0 0)) \<and> universe_id (basic_record 8 3 0 0) \<noteq> PNone"
proof -
  let ?games = "[PDict [(''universeId'', PInt 7)], PDict [(''name'', PStr ''Obby'')],
       PDict [(''universeId'', PNone)], PDict [(''universeId'', PInt 8), (''playerCount'', PInt 3)]]"
  let ?page = "listing_json ?games None"
  let ?out = "[basic_record 7 0 0 0, basic_record 8 3 0 0]"
  let ?w = "\<lparr>clock = 0, requests = [GetSorts ''s'' None], server = ()\<rparr>"
  have b: "body (ok_json ?page) = Some ?page" by (simp add: ok_json_def)
  have g: "page_games ?page = Some ?games"
    by (simp add: listing_json_def dict_get_def)
  have k: "kept ?games = ?out"
    by (simp add: kept_def record_of_def universe_id_def dict_get_def basic_record_def)
  have p: "page_try (ok_json ?page) [] = (NoMorePages, ?out)"
    by (simp add: page_try_def ok_json_def listing_json_def dict_get_def basic_record_def)
  have f: "fetch_game_ids_from_api (always (ok_json ?page)) ''s'' 10 (start ()) = Some (?out, ?w)"
    using fetch_ids_single_page[OF _ _ p, of 10 "''s''"]
    by (simp add: ok_json_def py_take_def)
  note t = fetch_game_ids_keeps_truthy_ids
    [of "ok_json ?page" ?page ?games "[]" "always (ok_json ?page)" "''s''" 10 "start ()" ?out ?w]
  from t have t1: "body (ok_json ?page) = Some ?page \<longrightarrow> page_games ?page = Some ?games \<longrightarrow>
      snd (page_try (ok_json ?page) []) = [] @ kept ?games" by (rule conjunct1)
  from t have t2: "fetch_game_ids_from_api (always (ok_json ?page)) ''s'' 10 (start ())
        = Some (?out, ?w) \<longrightarrow>
      (\<forall>game_data\<in>set ?out. truthy (universe_id game_data) \<and> universe_id game_data \<noteq> PNone)"
    by (rule conjunct2)
  from t1 b g have "snd (page_try (ok_json ?page) []) = [] @ kept ?games" by blast
  then have s: "snd (page_try (ok_json ?page) []) = ?out" unfolding k by simp
  from t2 f have a: "\<forall>game_data\<in>set ?out.
      truthy (universe_id game_data) \<and> universe_id game_data \<noteq> PNone" by blast
  have i: "basic_record 7 0 0 0 \<in> set ?out" "basic_record 8 3 0 0 \<in> set ?out" by simp_all
  from a i(1) have a7: "truthy (universe_id (basic_record 7 0 0 0))
      \<and> universe_id (basic_record 7 0 0 0) \<noteq> PNone" by (rule bspec)
  from a i(2) have a8: "truthy (universe_id (basic_record 8 3 0 0))
      \<and> universe_id (basic_record 8 3 0 0) \<noteq> PNone" by (rule bspec)
  show ?thesis
    by (intro conjI) (rule g s f a7[THEN conjunct1] a7[THEN conjunct2]
        a8[THEN conjunct1] a8[THEN conjunct2])+
qed


lemma endless_fuel:
  "fetch_game_ids_fuel n (always (ok_json (listing_json [] (Some (PStr ''next'')))))
     sid 1 [] tok w = None"
proof (induction n arbitrary: tok w)
  case 0
  show ?case by simp
next
  case (Suc n)
  have p: "page_try (ok_json (listing_json [] (Some (PStr ''next'')))) []
      = (NextPage (PStr ''next''), [])"
    by (simp add: page_try_def ok_json_def listing_json_def dict_get_def)
  have s: "status_code (ok_json (listing_json [] (Some (PStr ''next'')))) = 200"
    by (simp add: ok_json_def)
  show ?case
    by (simp add: http_get_always p s Suc.IH)
qed

text \<open>
  A listing endpoint that forever answers with an empty page and a next page token keeps
  the loop running: the function does not return.
\<close>

lemma fetch_game_ids_endless:
  "fetch_game_ids_from_api (always (ok_json (listing_json [] (Some (PStr ''next'')))))
     sid 1 w = None"
proof (cases "fetch_game_ids_loop (always (ok_json (listing_json [] (Some (PStr ''next'')))))
     sid 1 [] PNone w")
  case None
  then show ?thesis by (simp add: fetch_game_ids_from_api_def)
next
  case (Some x)
  from loop_gives_fuel[OF this] endless_fuel show ?thesis by auto
qed


end
